theory Spec2Isabelle
  imports Main
begin

section \<open>The activation layer of the pull-request extension (src/extension.ts)\<close>

text \<open>
  The file extension.ts has three functions: \<open>init\<close>, \<open>activate\<close> and \<open>deactivate\<close>.
  They run on the single thread of the extension host, and everything they do after
  their first \<open>await\<close> happens in callbacks the host dispatches one at a time. The
  model is therefore a state machine: a record of everything the three functions and
  their closures read or write, one \<open>event\<close> per callback the host can dispatch, and a
  function \<open>step\<close> that runs the callback's body to its next suspension.
\<close>

subsection \<open>Data\<close>

text \<open>
  A repository of the git provider: the object's identity (a handle the provider
  assigns) and the flag \<open>r.ui.selected\<close>.
\<close>

record Repository =
  handle :: nat
  selected :: bool

text \<open>A thrown value or the reason of a rejected promise.\<close>

datatype error = Error string

text \<open>What a call does before it returns, and how the promise it returned settles.\<close>

datatype call = Throws error | Returns

datatype settlement = Fulfils | Rejects error

text \<open>
  The call \<open>repository.status()\<close> of line 32 as a whole. Its declaration is in
  ./typings/git, so what it does is a parameter: it throws, or it returns a promise which
  fulfils, or it returns a promise which rejects later. Line 32 does not await the promise.
\<close>

datatype status_outcome = StatusThrows error | StatusFulfils | StatusRejects error

text \<open>The promise of an async function of this file, seen by its caller.\<close>

datatype promise = Pending | Resolved | Rejected error

text \<open>How far the one call of \<open>init\<close> has come.\<close>

datatype phase =
    NotCalled
  | Loading       \<comment> \<open>suspended at line 26, \<open>await configuration.loadConfiguration()\<close>\<close>
  | Ready         \<comment> \<open>ran to line 71\<close>
  | Aborted error \<comment> \<open>line 26 threw: the promise of \<open>init\<close> is rejected\<close>

text \<open>The disposables pushed to \<open>context.subscriptions\<close> (lines 40 and 42).\<close>

datatype subscription = ConfigurationListener | UriHandler

record state =
  repositories :: "Repository list"
    \<comment> \<open>\<open>git.repositories\<close>, in the provider's order\<close>
  telemetry :: bool
    \<comment> \<open>the module variable of line 20 holds a Telemetry object\<close>
  telemetry_log :: "string list"
    \<comment> \<open>the arguments of \<open>telemetry.on\<close>, oldest first\<close>
  shutdown_calls :: nat
    \<comment> \<open>calls of \<open>telemetry.shutdown()\<close>\<close>
  activation :: "promise option"
    \<comment> \<open>the promise of \<open>activate\<close>; None before the call\<close>
  deactivation :: "promise option"
    \<comment> \<open>the promise of \<open>deactivate\<close>; None before the call\<close>
  open_listener :: bool
    \<comment> \<open>the listener of line 90 is subscribed\<close>
  init_calls :: "nat list"
    \<comment> \<open>the repository of every call of \<open>init\<close>, oldest first\<close>
  init_phase :: phase
  repository :: "nat option"
    \<comment> \<open>the parameter \<open>repository\<close> of \<open>init\<close>\<close>
  config_handler :: bool
    \<comment> \<open>the handler of lines 27-38 is registered\<close>
  subscriptions :: "subscription list"
  prManager :: "nat option"
    \<comment> \<open>\<open>prManager.repository\<close>; None while \<open>prManager\<close> is not constructed\<close>
  reviewManager :: "nat option"
    \<comment> \<open>\<open>reviewManager.repository\<close>, likewise\<close>
  commands :: bool
    \<comment> \<open>\<open>registerCommands\<close> has run (line 46)\<close>
  watched :: "nat list"
    \<comment> \<open>the repositories whose \<open>ui.onDidChange\<close> has the listener of lines 55-68\<close>
  updateRepositoryTimer :: "nat option"
    \<comment> \<open>the variable of line 53; None is \<open>undefined\<close>\<close>
  timers :: "nat list"
    \<comment> \<open>the host's timers that are scheduled and neither fired nor cleared\<close>
  next_timer :: nat
    \<comment> \<open>the handle the host's next \<open>setTimeout\<close> returns\<close>
  awaiting_clear :: nat
    \<comment> \<open>runs of the handler of line 27 suspended at line 30\<close>
  clear_calls :: nat
    \<comment> \<open>calls of \<open>prManager.clearCredentialCache()\<close>\<close>
  status_calls :: "nat list"
    \<comment> \<open>the repository of every call of \<open>status()\<close>, oldest first\<close>
  shown_errors :: "error list"
    \<comment> \<open>every e of a call \<open>vscode.window.showErrorMessage(formatError(e))\<close>\<close>
  unhandled :: "error list"
    \<comment> \<open>the reasons of rejected promises that no code of this file awaits\<close>

text \<open>The host before it calls \<open>activate\<close>, with the provider's repositories.\<close>

definition start :: "Repository list \<Rightarrow> state" where
  "start rs =
     \<lparr> repositories = rs, telemetry = False, telemetry_log = [], shutdown_calls = 0,
       activation = None, deactivation = None, open_listener = False, init_calls = [],
       init_phase = NotCalled, repository = None, config_handler = False,
       subscriptions = [], prManager = None, reviewManager = None, commands = False,
       watched = [], updateRepositoryTimer = None, timers = [], next_timer = 1,
       awaiting_clear = 0, clear_calls = 0, status_calls = [], shown_errors = [],
       unhandled = [] \<rparr>"

subsection \<open>Lines 62 and 84: the first selected repository\<close>

text \<open>
  \<open>git.repositories.filter(r => r.ui.selected)[0]\<close>: index 0 of an empty array is
  \<open>undefined\<close>, which the tests of lines 63 and 86 take for false.
\<close>

definition firstSelectedRepository :: "Repository list \<Rightarrow> Repository option" where
  "firstSelectedRepository rs =
     (case filter selected rs of [] \<Rightarrow> None | r # _ \<Rightarrow> Some r)"

subsection \<open>Lines 22-72: init\<close>

text \<open>
  Lines 23-26, to the suspension: the call is logged, a configuration is created and its
  load is awaited.
\<close>

definition init :: "nat \<Rightarrow> state \<Rightarrow> state" where
  "init r s = s\<lparr> init_calls := init_calls s @ [r], repository := Some r, init_phase := Loading \<rparr>"

text \<open>
  The promise of \<open>init\<close> settles. Line 87 awaits it when \<open>activate\<close> made the call, so
  \<open>activate\<close> settles the same way; the caller of line 90 is the event emitter, which
  does not look at what its listener returns.
\<close>

definition settle_init :: "settlement \<Rightarrow> state \<Rightarrow> state" where
  "settle_init st s =
     (if activation s = Some Pending
      then s\<lparr> activation := Some (case st of Fulfils \<Rightarrow> Resolved | Rejects e \<Rightarrow> Rejected e) \<rparr>
      else (case st of Fulfils \<Rightarrow> s | Rejects e \<Rightarrow> s\<lparr> unhandled := unhandled s @ [e] \<rparr>))"

text \<open>
  Modelled from the spec: the constructors of PullRequestManager and ReviewManager
  (./github/pullRequestManager and ./view/reviewManager) are not in the source at hand.
  By the spec each manager holds "a mutable reference to the active repository" and is
  constructed "bound to the resolved repository": the field \<open>repository\<close> of a new
  manager is the repository the constructor gets.
\<close>

definition new_manager :: "nat \<Rightarrow> nat option" where
  "new_manager r = Some r"

text \<open>
  Lines 27-71, which run without suspension once the load has fulfilled. Both
  constructors get the parameter \<open>repository\<close>.
\<close>

definition init_resume :: "state \<Rightarrow> state" where
  "init_resume s =
     (case repository s of
        None \<Rightarrow> s
      | Some r \<Rightarrow>
          settle_init Fulfils
            (s\<lparr> config_handler := True,
               subscriptions := subscriptions s @ [ConfigurationListener, UriHandler],
               prManager := new_manager r,
               reviewManager := new_manager r,
               commands := True,
               watched := map handle (repositories s),
               telemetry_log := telemetry_log s @ [''startup''],
               init_phase := Ready \<rparr>))"

text \<open>Line 26 throws: nothing of \<open>init\<close> catches it.\<close>

definition init_abort :: "error \<Rightarrow> state \<Rightarrow> state" where
  "init_abort e s = settle_init (Rejects e) (s\<lparr> init_phase := Aborted e \<rparr>)"

subsection \<open>Lines 27-38: the configuration-change handler\<close>

definition showErrorMessage :: "error \<Rightarrow> state \<Rightarrow> state" where
  "showErrorMessage e s = s\<lparr> shown_errors := shown_errors s @ [e] \<rparr>"

text \<open>
  Lines 28-30, to the suspension: the guard, the call of \<open>clearCredentialCache\<close>, and
  the catch of line 34 when the call itself throws.
\<close>

definition configuration_changed :: "call \<Rightarrow> state \<Rightarrow> state" where
  "configuration_changed c s =
     (if \<not> config_handler s then s
      else case prManager s of
        None \<Rightarrow> s
      | Some _ \<Rightarrow>
          (let s1 = s\<lparr> clear_calls := Suc (clear_calls s) \<rparr> in
           case c of
             Throws e \<Rightarrow> showErrorMessage e s1
           | Returns \<Rightarrow> s1\<lparr> awaiting_clear := Suc (awaiting_clear s1) \<rparr>))"

text \<open>
  Lines 30-36, from the suspension on. A rejection of the awaited promise is thrown at
  line 30 and caught. Otherwise \<open>repository.status()\<close> is called on the parameter of
  \<open>init\<close> and its promise is dropped: a throw is caught, a later rejection is not.
\<close>

definition clear_settled :: "settlement \<Rightarrow> status_outcome \<Rightarrow> state \<Rightarrow> state" where
  "clear_settled st so s =
     (if awaiting_clear s = 0 then s
      else
        (let s1 = s\<lparr> awaiting_clear := awaiting_clear s - 1 \<rparr> in
         case st of
           Rejects e \<Rightarrow> showErrorMessage e s1
         | Fulfils \<Rightarrow>
             (case repository s1 of
                None \<Rightarrow> s1
              | Some r \<Rightarrow>
                  (let s2 = s1\<lparr> status_calls := status_calls s1 @ [r] \<rparr> in
                   case so of
                     StatusThrows e \<Rightarrow> showErrorMessage e s2
                   | StatusFulfils \<Rightarrow> s2
                   | StatusRejects e \<Rightarrow> s2\<lparr> unhandled := unhandled s2 @ [e] \<rparr>))))"

subsection \<open>Lines 53-69: the debounced update of the active repository\<close>

definition clearTimeout :: "nat \<Rightarrow> state \<Rightarrow> state" where
  "clearTimeout t s = s\<lparr> timers := removeAll t (timers s) \<rparr>"

definition setTimeout :: "state \<Rightarrow> nat \<times> state" where
  "setTimeout s =
     (next_timer s, s\<lparr> timers := timers s @ [next_timer s], next_timer := Suc (next_timer s) \<rparr>)"

text \<open>Lines 56-67, the listener of a repository's \<open>ui.onDidChange\<close>.\<close>

definition ui_changed :: "state \<Rightarrow> state" where
  "ui_changed s =
     (let s1 = (case updateRepositoryTimer s of None \<Rightarrow> s | Some t \<Rightarrow> clearTimeout t s);
          (t, s2) = setTimeout s1
      in s2\<lparr> updateRepositoryTimer := Some t \<rparr>)"

text \<open>
  Lines 61-66, the timer's callback. The assignments go to the managers that exist; the
  callback has no \<open>await\<close>.
\<close>

definition update_repository :: "state \<Rightarrow> state" where
  "update_repository s =
     (case firstSelectedRepository (repositories s) of
        None \<Rightarrow> s
      | Some r \<Rightarrow>
          s\<lparr> prManager := map_option (\<lambda>_. handle r) (prManager s),
             reviewManager := map_option (\<lambda>_. handle r) (reviewManager s) \<rparr>)"

subsection \<open>Lines 74-92: activate\<close>

text \<open>
  Modelled from the spec: \<open>filterEvent\<close> and \<open>onceEvent\<close> of ./common/utils are not in
  the source at hand. By the spec the listener of line 90 waits for "a repository opened
  event for a repository that is selected", resolves "on the first such event" and is a
  "single-shot subscription, auto-unsubscribing after first match". The listener is
  unsubscribed before \<open>init\<close> is called.
\<close>

definition onDidOpenRelevantRepository :: "Repository \<Rightarrow> state \<Rightarrow> state" where
  "onDidOpenRelevantRepository r s =
     (if open_listener s \<and> selected r
      then init (handle r) (s\<lparr> open_listener := False \<rparr>)
      else s)"

definition activate :: "state \<Rightarrow> state" where
  "activate s =
     (let s1 = s\<lparr> telemetry := True, activation := Some Pending \<rparr> in
      case firstSelectedRepository (repositories s1) of
        Some r \<Rightarrow> init (handle r) s1
      | None \<Rightarrow> s1\<lparr> open_listener := True, activation := Some Resolved \<rparr>)"

subsection \<open>Lines 94-98: deactivate\<close>

text \<open>To the suspension of line 96, or to the end when there is no telemetry.\<close>

definition deactivate :: "call \<Rightarrow> state \<Rightarrow> state" where
  "deactivate c s =
     (if telemetry s
      then
        (let s1 = s\<lparr> shutdown_calls := Suc (shutdown_calls s) \<rparr> in
         case c of
           Throws e \<Rightarrow> s1\<lparr> deactivation := Some (Rejected e) \<rparr>
         | Returns \<Rightarrow> s1\<lparr> deactivation := Some Pending \<rparr>)
      else s\<lparr> deactivation := Some Resolved \<rparr>)"

text \<open>The promise of \<open>telemetry.shutdown()\<close> settles and line 96 resumes.\<close>

definition shutdown_settled :: "settlement \<Rightarrow> state \<Rightarrow> state" where
  "shutdown_settled st s =
     (if deactivation s = Some Pending
      then s\<lparr> deactivation := Some (case st of Fulfils \<Rightarrow> Resolved | Rejects e \<Rightarrow> Rejected e) \<rparr>
      else s)"

subsection \<open>The host's dispatch loop\<close>

text \<open>
  What the host and the provider can do between two suspensions of this file's code. The
  provider changes its collection and its flags on its own; it notifies listeners with
  \<open>RepositoryOpened\<close> (after it has added the repository) and \<open>UiChanged\<close>.
\<close>

datatype event =
    RepositoryOpened Repository
  | RepositoryClosed nat
  | UiSelected nat bool
  | UiChanged nat
  | LoadSettled settlement
  | ConfigurationChanged call
  | ClearSettled settlement status_outcome
  | TimerFired nat

fun step :: "event \<Rightarrow> state \<Rightarrow> state" where
  "step (RepositoryOpened r) s =
     onDidOpenRelevantRepository r (s\<lparr> repositories := repositories s @ [r] \<rparr>)"
| "step (RepositoryClosed h) s =
     s\<lparr> repositories := filter (\<lambda>r. handle r \<noteq> h) (repositories s) \<rparr>"
| "step (UiSelected h b) s =
     s\<lparr> repositories :=
          map (\<lambda>r. if handle r = h then r\<lparr> selected := b \<rparr> else r) (repositories s) \<rparr>"
| "step (UiChanged h) s = (if h \<in> set (watched s) then ui_changed s else s)"
| "step (LoadSettled st) s =
     (if init_phase s = Loading
      then (case st of Fulfils \<Rightarrow> init_resume s | Rejects e \<Rightarrow> init_abort e s)
      else s)"
| "step (ConfigurationChanged c) s = configuration_changed c s"
| "step (ClearSettled st so) s = clear_settled st so s"
| "step (TimerFired t) s =
     (if t \<in> set (timers s) then update_repository (clearTimeout t s) else s)"

fun run :: "event list \<Rightarrow> state \<Rightarrow> state" where
  "run [] s = s"
| "run (e # es) s = run es (step e s)"

subsection \<open>Reading a run\<close>

text \<open>
  The repository of the first \<open>RepositoryOpened\<close> event of a run whose repository is
  selected when the event is dispatched.
\<close>

fun first_relevant :: "event list \<Rightarrow> nat option" where
  "first_relevant [] = None"
| "first_relevant (RepositoryOpened r # es) =
     (if selected r then Some (handle r) else first_relevant es)"
| "first_relevant (_ # es) = first_relevant es"

subsection \<open>Invariants of the states an activation reaches\<close>

text \<open>
  Lines 27-71 run in one piece: everything they set up is there once \<open>init\<close> is
  \<open>Ready\<close>, and nothing of it is there before.
\<close>

definition wired :: "state \<Rightarrow> bool" where
  "wired s \<longleftrightarrow>
     (if init_phase s = Ready
      then config_handler s \<and> prManager s \<noteq> None \<and> reviewManager s \<noteq> None \<and> commands s \<and>
           subscriptions s = [ConfigurationListener, UriHandler] \<and>
           telemetry_log s = [''startup'']
      else \<not> config_handler s \<and> prManager s = None \<and> reviewManager s = None \<and> \<not> commands s \<and>
           subscriptions s = [] \<and> telemetry_log s = [] \<and> watched s = [] \<and> timers s = [] \<and>
           updateRepositoryTimer s = None \<and> awaiting_clear s = 0 \<and> clear_calls s = 0 \<and>
           status_calls s = [] \<and> shown_errors s = [])"

definition managers_agree :: "state \<Rightarrow> bool" where
  "managers_agree s \<longleftrightarrow> prManager s = reviewManager s"

text \<open>The only timer that can be pending is the one \<open>updateRepositoryTimer\<close> holds.\<close>

definition one_timer :: "state \<Rightarrow> bool" where
  "one_timer s \<longleftrightarrow>
     (case updateRepositoryTimer s of
        None \<Rightarrow> timers s = []
      | Some t \<Rightarrow> t < next_timer s \<and> (timers s = [] \<or> timers s = [t]))"

text \<open>
  \<open>init\<close> is called at most once, and never while the listener of line 90 is still
  subscribed; this is what lets one set of fields stand for the closure of \<open>init\<close>.
\<close>

definition one_init :: "state \<Rightarrow> bool" where
  "one_init s \<longleftrightarrow>
     init_calls s = (case repository s of None \<Rightarrow> [] | Some r \<Rightarrow> [r]) \<and>
     (repository s = None) = (init_phase s = NotCalled) \<and>
     (open_listener s \<longrightarrow> init_phase s = NotCalled)"

text \<open>
  The promise of \<open>activate\<close>, by the branch line 86 took: \<open>found\<close> is the result of
  line 84.
\<close>

definition path_ok :: "Repository option \<Rightarrow> state \<Rightarrow> bool" where
  "path_ok found s \<longleftrightarrow>
     (if found \<noteq> None
      then \<not> open_listener s \<and>
           (case init_phase s of
              NotCalled \<Rightarrow> False
            | Loading \<Rightarrow> activation s = Some Pending
            | Ready \<Rightarrow> activation s = Some Resolved
            | Aborted e \<Rightarrow> activation s = Some (Rejected e))
      else activation s = Some Resolved \<and>
           (case init_phase s of Aborted e \<Rightarrow> e \<in> set (unhandled s) | _ \<Rightarrow> True))"

definition invariant :: "Repository option \<Rightarrow> state \<Rightarrow> bool" where
  "invariant found s \<longleftrightarrow>
     wired s \<and> managers_agree s \<and> one_timer s \<and> one_init s \<and> path_ok found s"


section \<open>Properties\<close>

lemmas model_defs =
  start_def firstSelectedRepository_def init_def settle_init_def new_manager_def init_resume_def
  init_abort_def showErrorMessage_def configuration_changed_def clear_settled_def
  clearTimeout_def setTimeout_def ui_changed_def update_repository_def
  onDidOpenRelevantRepository_def activate_def deactivate_def shutdown_settled_def

lemmas model_splits =
  option.splits settlement.splits call.splits status_outcome.splits if_splits list.splits

lemma run_append: "run (es @ fs) s = run fs (run es s)"
  by (induction es arbitrary: s) simp_all

lemma firstSelectedRepository_None:
  "firstSelectedRepository rs = None \<longleftrightarrow> (\<forall>r \<in> set rs. \<not> selected r)"
proof -
  have "firstSelectedRepository rs = None \<longleftrightarrow> filter selected rs = []"
    by (simp add: firstSelectedRepository_def split: list.splits)
  then show ?thesis by (simp add: filter_empty_conv)
qed

text \<open>
  Line 84 and line 62 take the first repository of the provider's order that is
  selected.
\<close>

lemma firstSelectedRepository_Some:
  "firstSelectedRepository rs = Some r \<longleftrightarrow>
     (\<exists>before after. rs = before @ r # after \<and> selected r \<and> (\<forall>x \<in> set before. \<not> selected x))"
proof -
  have "firstSelectedRepository rs = Some r \<longleftrightarrow> (\<exists>ys. filter selected rs = r # ys)"
    by (auto simp: firstSelectedRepository_def split: list.splits)
  then show ?thesis
    by (auto simp: filter_eq_Cons_iff)
qed

subsection \<open>The invariants hold after activate and after every event\<close>

lemma one_init_step: "one_init s \<Longrightarrow> one_init (step e s)"
  by (cases e) (auto simp: one_init_def model_defs Let_def split: model_splits)

lemma wired_step: "one_init s \<Longrightarrow> wired s \<Longrightarrow> wired (step e s)"
  by (cases e) (auto simp: one_init_def wired_def model_defs Let_def split: model_splits)

lemma managers_agree_step: "managers_agree s \<Longrightarrow> managers_agree (step e s)"
  by (cases e) (auto simp: managers_agree_def model_defs Let_def split: model_splits)

lemma one_timer_step: "one_timer s \<Longrightarrow> one_timer (step e s)"
  by (cases e) (auto simp: one_timer_def model_defs Let_def split: model_splits)

lemma path_ok_step: "one_init s \<Longrightarrow> path_ok found s \<Longrightarrow> path_ok found (step e s)"
  by (cases e)
    (auto simp: one_init_def path_ok_def model_defs Let_def split: model_splits phase.splits)

lemma wired_activate: "wired (activate (start rs))"
  by (auto simp: wired_def model_defs Let_def split: list.splits)

lemma managers_agree_activate: "managers_agree (activate (start rs))"
  by (auto simp: managers_agree_def model_defs Let_def split: list.splits)

lemma one_timer_activate: "one_timer (activate (start rs))"
  by (auto simp: one_timer_def model_defs Let_def split: list.splits)

lemma one_init_activate: "one_init (activate (start rs))"
  by (auto simp: one_init_def model_defs Let_def split: list.splits)

lemma path_ok_activate: "path_ok (firstSelectedRepository rs) (activate (start rs))"
  by (auto simp: path_ok_def model_defs Let_def split: list.splits)

lemma invariant_step: "invariant found s \<Longrightarrow> invariant found (step e s)"
  by (simp add: invariant_def wired_step managers_agree_step one_timer_step one_init_step
      path_ok_step)

lemma invariant_run: "invariant found s \<Longrightarrow> invariant found (run es s)"
  by (induction es arbitrary: s) (simp_all add: invariant_step)

lemma invariant_activate: "invariant (firstSelectedRepository rs) (activate (start rs))"
  by (simp add: invariant_def wired_activate managers_agree_activate one_timer_activate
      one_init_activate path_ok_activate)

lemma invariant_reachable:
  "invariant (firstSelectedRepository rs) (run es (activate (start rs)))"
  by (simp add: invariant_run invariant_activate)

subsection \<open>Initial discovery\<close>

lemma open_listener_step:
  "open_listener (step e s) =
     (open_listener s \<and> (case e of RepositoryOpened r \<Rightarrow> \<not> selected r | _ \<Rightarrow> True))"
  by (cases e) (auto simp: model_defs Let_def split: model_splits)

lemma init_calls_step:
  "init_calls (step e s) =
     (case e of
        RepositoryOpened r \<Rightarrow>
          if open_listener s \<and> selected r then init_calls s @ [handle r] else init_calls s
      | _ \<Rightarrow> init_calls s)"
  by (cases e) (auto simp: model_defs Let_def split: model_splits)

lemma init_calls_run:
  "init_calls (run es s) =
     (if open_listener s
      then (case first_relevant es of None \<Rightarrow> init_calls s | Some h \<Rightarrow> init_calls s @ [h])
      else init_calls s)"
proof (induction es arbitrary: s)
  case Nil
  then show ?case by simp
next
  case (Cons e es)
  show ?case
    by (cases e)
      (simp_all add: Cons.IH init_calls_step open_listener_step del: step.simps
        split: option.splits)
qed

text \<open>
  C3. The list of calls of \<open>init\<close> after any run of events. When line 84 finds a selected
  repository, \<open>init\<close> has been called once, with the first selected repository of the
  provider's order, and no event adds a call. When it finds none, there is no call until
  the first repository-opened event for a selected repository, one call with that
  repository from then on, and no later repository-opened event adds another.
\<close>

theorem C3_init_called_once:
  "init_calls (run es (activate (start rs))) =
     (case firstSelectedRepository rs of
        Some r \<Rightarrow> [handle r]
      | None \<Rightarrow> (case first_relevant es of None \<Rightarrow> [] | Some h \<Rightarrow> [h]))"
  by (simp add: init_calls_run)
    (simp add: activate_def init_def start_def Let_def split: option.splits)

theorem C3_init_called_once_witness:
  "init_calls
     (run [RepositoryOpened \<lparr>handle = 1, selected = False\<rparr>,
           RepositoryOpened \<lparr>handle = 2, selected = True\<rparr>,
           RepositoryOpened \<lparr>handle = 3, selected = True\<rparr>]
        (activate (start []))) = [2] \<and>
   init_calls
     (run [RepositoryOpened \<lparr>handle = 3, selected = True\<rparr>]
        (activate (start [\<lparr>handle = 1, selected = False\<rparr>, \<lparr>handle = 2, selected = True\<rparr>,
                          \<lparr>handle = 4, selected = True\<rparr>]))) = [2]"
  using
    C3_init_called_once [of "[RepositoryOpened \<lparr>handle = 1, selected = False\<rparr>,
           RepositoryOpened \<lparr>handle = 2, selected = True\<rparr>,
           RepositoryOpened \<lparr>handle = 3, selected = True\<rparr>]" "[]"]
    C3_init_called_once [of "[RepositoryOpened \<lparr>handle = 3, selected = True\<rparr>]"
      "[\<lparr>handle = 1, selected = False\<rparr>, \<lparr>handle = 2, selected = True\<rparr>,
        \<lparr>handle = 4, selected = True\<rparr>]"]
  by (simp add: firstSelectedRepository_def)

text \<open>How an event moves \<open>init\<close> on; \<open>Ready\<close> and \<open>Aborted\<close> are final.\<close>

lemma init_phase_step:
  "init_phase (step ev s) =
     (case ev of
        RepositoryOpened r \<Rightarrow> if open_listener s \<and> selected r then Loading else init_phase s
      | LoadSettled st \<Rightarrow>
          if init_phase s = Loading
          then (case st of
                  Fulfils \<Rightarrow> (if repository s = None then Loading else Ready)
                | Rejects e \<Rightarrow> Aborted e)
          else init_phase s
      | _ \<Rightarrow> init_phase s)"
  by (cases ev) (auto simp: model_defs Let_def split: model_splits)

lemma aborted_run:
  "one_init s \<Longrightarrow> init_phase s = Aborted e \<Longrightarrow> init_phase (run es s) = Aborted e"
proof (induction es arbitrary: s)
  case Nil
  then show ?case by simp
next
  case (Cons ev es)
  from Cons.prems have "init_phase (step ev s) = Aborted e"
    by (cases ev) (simp_all add: init_phase_step one_init_def del: step.simps)
  with Cons.IH [of "step ev s"] Cons.prems(1) show ?case
    by (simp add: one_init_step del: step.simps)
qed

lemma ready_run:
  "one_init s \<Longrightarrow> init_phase s = Ready \<Longrightarrow> init_phase (run es s) = Ready"
proof (induction es arbitrary: s)
  case Nil
  then show ?case by simp
next
  case (Cons ev es)
  from Cons.prems have "init_phase (step ev s) = Ready"
    by (cases ev) (simp_all add: init_phase_step one_init_def del: step.simps)
  with Cons.IH [of "step ev s"] Cons.prems(1) show ?case
    by (simp add: one_init_step del: step.simps)
qed

text \<open>
  C8. Take any state of an activation in which \<open>init\<close> waits for the configuration, let
  the load fail with e, and let any events follow. Then \<open>init\<close> stays aborted with e; no
  configuration-change handler, no subscription (the configuration listener and the URI
  handler are the two), no selection-changed listener and no timer exists; no manager is
  constructed, no command is registered, no telemetry event is emitted; and e is not
  caught and shown. The rejection leaves \<open>init\<close>: when line 87 awaits \<open>init\<close>, the promise
  of \<open>activate\<close> is rejected with e; when line 90 made the call, \<open>activate\<close> had resolved
  before and e is the reason of a promise handed back to the event emitter.
\<close>

theorem C8_load_failure_wires_nothing:
  assumes "s = run es (activate (start rs))"
      and "init_phase s = Loading"
      and "s' = run es' (step (LoadSettled (Rejects e)) s)"
  shows "init_phase s' = Aborted e \<and>
         \<not> config_handler s' \<and> subscriptions s' = [] \<and> watched s' = [] \<and> timers s' = [] \<and>
         prManager s' = None \<and> reviewManager s' = None \<and> \<not> commands s' \<and>
         telemetry_log s' = [] \<and> shown_errors s' = [] \<and>
         (case firstSelectedRepository rs of
            Some r \<Rightarrow> activation s' = Some (Rejected e)
          | None \<Rightarrow> activation s' = Some Resolved \<and> e \<in> set (unhandled s'))"
proof -
  let ?found = "firstSelectedRepository rs"
  define s1 where "s1 = step (LoadSettled (Rejects e)) s"
  have inv: "invariant ?found s"
    unfolding assms(1) by (rule invariant_reachable)
  then have inv1: "invariant ?found s1"
    unfolding s1_def by (rule invariant_step)
  have "init_phase s1 = Aborted e"
    unfolding s1_def using assms(2) by (simp add: init_phase_step del: step.simps)
  moreover have s': "s' = run es' s1"
    by (simp add: assms(3) s1_def)
  ultimately have ph: "init_phase s' = Aborted e"
    using inv1 by (simp add: aborted_run invariant_def)
  have inv': "invariant ?found s'"
    unfolding s' using inv1 by (rule invariant_run)
  from inv' ph have w:
    "\<not> config_handler s' \<and> subscriptions s' = [] \<and> watched s' = [] \<and> timers s' = [] \<and>
     prManager s' = None \<and> reviewManager s' = None \<and> \<not> commands s' \<and>
     telemetry_log s' = [] \<and> shown_errors s' = []"
    by (simp add: invariant_def wired_def)
  from ph inv' have
    "case ?found of
       Some r \<Rightarrow> activation s' = Some (Rejected e)
     | None \<Rightarrow> activation s' = Some Resolved \<and> e \<in> set (unhandled s')"
    by (auto simp: invariant_def path_ok_def split: option.splits)
  with ph w show ?thesis by simp
qed

theorem C8_load_failure_wires_nothing_witness:
  "init_phase (activate (start [\<lparr>handle = 0, selected = True\<rparr>])) = Loading \<and>
   activation
     (run [ConfigurationChanged Returns, UiChanged 0]
        (step (LoadSettled (Rejects (Error ''settings'')))
           (activate (start [\<lparr>handle = 0, selected = True\<rparr>])))) =
     Some (Rejected (Error ''settings'')) \<and>
   telemetry_log
     (run [ConfigurationChanged Returns, UiChanged 0]
        (step (LoadSettled (Rejects (Error ''settings'')))
           (activate (start [\<lparr>handle = 0, selected = True\<rparr>])))) = [] \<and>
   init_phase (run [RepositoryOpened \<lparr>handle = 7, selected = True\<rparr>] (activate (start []))) =
     Loading \<and>
   unhandled
     (run [UiChanged 7]
        (step (LoadSettled (Rejects (Error ''settings'')))
           (run [RepositoryOpened \<lparr>handle = 7, selected = True\<rparr>] (activate (start []))))) =
     [Error ''settings''] \<and>
   watched
     (run [UiChanged 7]
        (step (LoadSettled (Rejects (Error ''settings'')))
           (run [RepositoryOpened \<lparr>handle = 7, selected = True\<rparr>] (activate (start []))))) = []"
  using
    C8_load_failure_wires_nothing [OF refl _ refl,
      of "[]" "[\<lparr>handle = 0, selected = True\<rparr>]" "[ConfigurationChanged Returns, UiChanged 0]"
         "Error ''settings''"]
    C8_load_failure_wires_nothing [OF refl _ refl,
      of "[RepositoryOpened \<lparr>handle = 7, selected = True\<rparr>]" "[]" "[UiChanged 7]"
         "Error ''settings''"]
  by (simp add: model_defs)

text \<open>
  C7, as amended. In every state an activation reaches, the telemetry log is the one
  event \<open>startup\<close> when \<open>init\<close> has run to its end and is empty otherwise: the event is
  emitted at most once, once exactly when \<open>init\<close> completes, and not at all in an
  activation whose configuration load fails or which never finds a selected repository.
  When it has been emitted, both managers exist, the configuration-change handler, the
  two subscriptions and the commands are registered.
\<close>

theorem C7_startup_once_init_completes:
  assumes "s = run es (activate (start rs))"
  shows "telemetry_log s = (if init_phase s = Ready then [''startup''] else []) \<and>
         (init_phase s = Ready \<longrightarrow>
            prManager s \<noteq> None \<and> reviewManager s \<noteq> None \<and> config_handler s \<and> commands s \<and>
            subscriptions s = [ConfigurationListener, UriHandler])"
proof -
  have "wired s"
    using invariant_reachable [of rs es] by (simp add: assms invariant_def)
  then show ?thesis
    by (simp add: wired_def split: if_splits)
qed

theorem C7_startup_once_init_completes_witness:
  "init_phase (run [LoadSettled Fulfils, ConfigurationChanged Returns, LoadSettled Fulfils]
      (activate (start [\<lparr>handle = 0, selected = True\<rparr>]))) = Ready \<and>
   telemetry_log (run [LoadSettled Fulfils, ConfigurationChanged Returns, LoadSettled Fulfils]
      (activate (start [\<lparr>handle = 0, selected = True\<rparr>]))) = [''startup''] \<and>
   prManager (run [LoadSettled Fulfils, ConfigurationChanged Returns, LoadSettled Fulfils]
      (activate (start [\<lparr>handle = 0, selected = True\<rparr>]))) = Some 0 \<and>
   telemetry_log (run [RepositoryOpened \<lparr>handle = 1, selected = False\<rparr>] (activate (start []))) = []"
  using
    C7_startup_once_init_completes [OF refl,
      of "[LoadSettled Fulfils, ConfigurationChanged Returns, LoadSettled Fulfils]"
         "[\<lparr>handle = 0, selected = True\<rparr>]"]
    C7_startup_once_init_completes [OF refl,
      of "[RepositoryOpened \<lparr>handle = 1, selected = False\<rparr>]" "[]"]
  by (simp add: model_defs)

text \<open>
  C7 as the claim states it fails: an activation whose configuration load is rejected
  never emits \<open>startup\<close>, whatever events follow.
\<close>

theorem C7_counterexample:
  "count_list
     (telemetry_log
        (run [LoadSettled (Rejects (Error ''settings'')), ConfigurationChanged Returns,
              UiChanged 0, RepositoryOpened \<lparr>handle = 1, selected = True\<rparr>, LoadSettled Fulfils]
           (activate (start [\<lparr>handle = 0, selected = True\<rparr>]))))
     ''startup'' = 0 \<and>
   init_phase
     (run [LoadSettled (Rejects (Error ''settings'')), ConfigurationChanged Returns,
           UiChanged 0, RepositoryOpened \<lparr>handle = 1, selected = True\<rparr>, LoadSettled Fulfils]
        (activate (start [\<lparr>handle = 0, selected = True\<rparr>]))) = Aborted (Error ''settings'')"
  by (simp add: model_defs)

subsection \<open>The configuration-change handler\<close>

lemma handler_keeps_managers:
  "prManager (step (ConfigurationChanged c) s) = prManager s \<and>
   reviewManager (step (ConfigurationChanged c) s) = reviewManager s \<and>
   prManager (step (ClearSettled st so) s) = prManager s \<and>
   reviewManager (step (ClearSettled st so) s) = reviewManager s"
  by (auto simp: configuration_changed_def clear_settled_def showErrorMessage_def Let_def
      split: model_splits)

text \<open>
  What the try of lines 29-36 does catch: a throw of \<open>clearCredentialCache\<close>, a rejection
  of its promise, and a throw of \<open>status\<close>. Each is shown, and none leaves the handler.
\<close>

lemma handler_catches:
  assumes "s = run es (activate (start rs))"
  shows "(prManager s \<noteq> None \<longrightarrow>
            shown_errors (step (ConfigurationChanged (Throws e)) s) = shown_errors s @ [e] \<and>
            unhandled (step (ConfigurationChanged c) s) = unhandled s) \<and>
         (0 < awaiting_clear s \<longrightarrow>
            shown_errors (step (ClearSettled (Rejects e) so) s) = shown_errors s @ [e] \<and>
            unhandled (step (ClearSettled (Rejects e) so) s) = unhandled s \<and>
            shown_errors (step (ClearSettled Fulfils (StatusThrows e)) s) = shown_errors s @ [e] \<and>
            unhandled (step (ClearSettled Fulfils (StatusThrows e)) s) = unhandled s)"
proof -
  have inv: "invariant (firstSelectedRepository rs) s"
    unfolding assms(1) by (rule invariant_reachable)
  from inv have "config_handler s" if "prManager s \<noteq> None"
    using that by (auto simp: invariant_def wired_def split: if_splits)
  moreover from inv have "repository s \<noteq> None" if "0 < awaiting_clear s"
    using that by (auto simp: invariant_def wired_def one_init_def split: if_splits)
  ultimately show ?thesis
    by (auto simp: configuration_changed_def clear_settled_def showErrorMessage_def Let_def
        split: call.splits)
qed

text \<open>
  Which repository the handler asks. In every state of an activation in which the
  managers exist, a configuration-change notification calls \<open>clearCredentialCache\<close> and
  suspends on its promise. When a suspended run of the handler resumes with the promise
  fulfilled, line 32 calls \<open>status()\<close> on the parameter \<open>repository\<close> of \<open>init\<close>, which
  nothing reassigns: it is the repository \<open>init\<close> was called with, whatever repository
  the managers hold by then.
\<close>

lemma handler_asks_init_repository:
  assumes "s = run es (activate (start rs))" and "init_calls s = [r]"
  shows "(prManager s \<noteq> None \<longrightarrow>
            clear_calls (step (ConfigurationChanged c) s) = Suc (clear_calls s) \<and>
            awaiting_clear (step (ConfigurationChanged Returns) s) = Suc (awaiting_clear s) \<and>
            status_calls (step (ConfigurationChanged c) s) = status_calls s) \<and>
         (0 < awaiting_clear s \<longrightarrow>
            status_calls (step (ClearSettled Fulfils so) s) = status_calls s @ [r] \<and>
            status_calls (step (ClearSettled (Rejects e) so) s) = status_calls s)"
proof -
  have inv: "invariant (firstSelectedRepository rs) s"
    unfolding assms(1) by (rule invariant_reachable)
  from inv assms(2) have rep: "repository s = Some r"
    by (auto simp: invariant_def one_init_def split: option.splits)
  from inv have "config_handler s" if "prManager s \<noteq> None"
    using that by (auto simp: invariant_def wired_def split: if_splits)
  then have
    "prManager s \<noteq> None \<longrightarrow>
       clear_calls (step (ConfigurationChanged c) s) = Suc (clear_calls s) \<and>
       awaiting_clear (step (ConfigurationChanged Returns) s) = Suc (awaiting_clear s) \<and>
       status_calls (step (ConfigurationChanged c) s) = status_calls s"
    by (auto simp: configuration_changed_def showErrorMessage_def Let_def split: call.splits)
  moreover from rep have
    "0 < awaiting_clear s \<longrightarrow>
       status_calls (step (ClearSettled Fulfils so) s) = status_calls s @ [r] \<and>
       status_calls (step (ClearSettled (Rejects e) so) s) = status_calls s"
    by (auto simp: clear_settled_def showErrorMessage_def Let_def split: status_outcome.splits)
  ultimately show ?thesis by blast
qed

text \<open>
  C1 at the input where the code misses it. Repository 0 is selected at activation and
  \<open>init\<close> completes with it. The selection moves to repository 1, and the debounce
  timer fires: the callback of lines 61-66 reads the collection afresh and makes
  repository 1 the active repository of both managers. A configuration change follows
  and \<open>clearCredentialCache\<close> succeeds. The handler invalidates the credentials once,
  but the one repository it asks to refresh its status is repository 0, the stale
  \<open>repository\<close> of its closure, and not repository 1, the active one.
\<close>

theorem C1_stale_repository_refreshed:
  "prManager
     (run [LoadSettled Fulfils, UiSelected 0 False, UiChanged 0, UiSelected 1 True, UiChanged 1,
           TimerFired 2, ConfigurationChanged Returns, ClearSettled Fulfils StatusFulfils]
        (activate (start [\<lparr>handle = 0, selected = True\<rparr>, \<lparr>handle = 1, selected = False\<rparr>]))) = Some 1 \<and>
   reviewManager
     (run [LoadSettled Fulfils, UiSelected 0 False, UiChanged 0, UiSelected 1 True, UiChanged 1,
           TimerFired 2, ConfigurationChanged Returns, ClearSettled Fulfils StatusFulfils]
        (activate (start [\<lparr>handle = 0, selected = True\<rparr>, \<lparr>handle = 1, selected = False\<rparr>]))) = Some 1 \<and>
   clear_calls
     (run [LoadSettled Fulfils, UiSelected 0 False, UiChanged 0, UiSelected 1 True, UiChanged 1,
           TimerFired 2, ConfigurationChanged Returns, ClearSettled Fulfils StatusFulfils]
        (activate (start [\<lparr>handle = 0, selected = True\<rparr>, \<lparr>handle = 1, selected = False\<rparr>]))) = 1 \<and>
   status_calls
     (run [LoadSettled Fulfils, UiSelected 0 False, UiChanged 0, UiSelected 1 True, UiChanged 1,
           TimerFired 2, ConfigurationChanged Returns, ClearSettled Fulfils StatusFulfils]
        (activate (start [\<lparr>handle = 0, selected = True\<rparr>, \<lparr>handle = 1, selected = False\<rparr>]))) = [0]"
  by (simp add: model_defs)

text \<open>
  C2 at the input where the code misses it. The managers exist, a configuration change
  arrives, the promise of \<open>clearCredentialCache\<close> fulfils, and \<open>status()\<close> returns a promise
  that rejects. Line 32 does not await that promise, so the catch of line 34 never sees
  the rejection: no message is shown and the rejection is left unhandled.
\<close>

theorem C2_status_rejection_not_caught:
  "status_calls
     (run [LoadSettled Fulfils, ConfigurationChanged Returns,
           ClearSettled Fulfils (StatusRejects (Error ''git''))]
        (activate (start [\<lparr>handle = 0, selected = True\<rparr>]))) = [0] \<and>
   shown_errors
     (run [LoadSettled Fulfils, ConfigurationChanged Returns,
           ClearSettled Fulfils (StatusRejects (Error ''git''))]
        (activate (start [\<lparr>handle = 0, selected = True\<rparr>]))) = [] \<and>
   unhandled
     (run [LoadSettled Fulfils, ConfigurationChanged Returns,
           ClearSettled Fulfils (StatusRejects (Error ''git''))]
        (activate (start [\<lparr>handle = 0, selected = True\<rparr>]))) = [Error ''git'']"
  by (simp add: model_defs)

subsection \<open>The debounced update\<close>

text \<open>
  C5. In every state an activation reaches, the two managers hold the same repository;
  and when a pending timer fires while some repository is selected, the one step of the
  callback leaves the first selected repository in both managers.
\<close>

theorem C5_managers_updated_together:
  assumes "s = run es (activate (start rs))"
  shows "prManager s = reviewManager s \<and>
         (\<forall>t r. t \<in> set (timers s) \<and> firstSelectedRepository (repositories s) = Some r \<longrightarrow>
            prManager (step (TimerFired t) s) = Some (handle r) \<and>
            reviewManager (step (TimerFired t) s) = Some (handle r))"
proof -
  have inv: "invariant (firstSelectedRepository rs) s"
    unfolding assms by (rule invariant_reachable)
  then have "prManager s = reviewManager s"
    by (simp add: invariant_def managers_agree_def)
  moreover have "prManager s \<noteq> None" if "t \<in> set (timers s)" for t
    using inv that by (auto simp: invariant_def wired_def split: if_splits)
  ultimately show ?thesis
    by (auto simp: update_repository_def clearTimeout_def)
qed

theorem C5_managers_updated_together_witness:
  "timers (run [LoadSettled Fulfils, UiSelected 0 False, UiChanged 0, UiSelected 1 True, UiChanged 1]
       (activate (start [\<lparr>handle = 0, selected = True\<rparr>, \<lparr>handle = 1, selected = False\<rparr>]))) = [2] \<and>
   firstSelectedRepository
     (repositories (run [LoadSettled Fulfils, UiSelected 0 False, UiChanged 0, UiSelected 1 True, UiChanged 1]
       (activate (start [\<lparr>handle = 0, selected = True\<rparr>, \<lparr>handle = 1, selected = False\<rparr>])))) =
     Some \<lparr>handle = 1, selected = True\<rparr> \<and>
   prManager (run [LoadSettled Fulfils, UiSelected 0 False, UiChanged 0, UiSelected 1 True, UiChanged 1]
       (activate (start [\<lparr>handle = 0, selected = True\<rparr>, \<lparr>handle = 1, selected = False\<rparr>]))) = Some 0 \<and>
   reviewManager (run [LoadSettled Fulfils, UiSelected 0 False, UiChanged 0, UiSelected 1 True, UiChanged 1]
       (activate (start [\<lparr>handle = 0, selected = True\<rparr>, \<lparr>handle = 1, selected = False\<rparr>]))) = Some 0 \<and>
   prManager (step (TimerFired 2)
     (run [LoadSettled Fulfils, UiSelected 0 False, UiChanged 0, UiSelected 1 True, UiChanged 1]
       (activate (start [\<lparr>handle = 0, selected = True\<rparr>, \<lparr>handle = 1, selected = False\<rparr>])))) = Some 1 \<and>
   reviewManager (step (TimerFired 2)
     (run [LoadSettled Fulfils, UiSelected 0 False, UiChanged 0, UiSelected 1 True, UiChanged 1]
       (activate (start [\<lparr>handle = 0, selected = True\<rparr>, \<lparr>handle = 1, selected = False\<rparr>])))) = Some 1"
  using C5_managers_updated_together [OF refl,
      of "[LoadSettled Fulfils, UiSelected 0 False, UiChanged 0, UiSelected 1 True, UiChanged 1]"
         "[\<lparr>handle = 0, selected = True\<rparr>, \<lparr>handle = 1, selected = False\<rparr>]"]
  by (simp add: model_defs)

text \<open>
  C6. When a pending timer fires while no repository of the collection is selected, the
  step changes nothing but the host's table of pending timers, which loses the timer
  that fired: both managers keep the repository they had.
\<close>

theorem C6_nothing_selected_no_update:
  assumes "t \<in> set (timers s)" and "\<forall>r \<in> set (repositories s). \<not> selected r"
  shows "step (TimerFired t) s = s\<lparr> timers := removeAll t (timers s) \<rparr> \<and>
         prManager (step (TimerFired t) s) = prManager s \<and>
         reviewManager (step (TimerFired t) s) = reviewManager s"
proof -
  from assms(2) have "firstSelectedRepository (repositories s) = None"
    by (simp add: firstSelectedRepository_None)
  with assms(1) show ?thesis by (simp add: update_repository_def clearTimeout_def)
qed

theorem C6_nothing_selected_no_update_witness:
  "timers (run [LoadSettled Fulfils, UiChanged 0, UiSelected 0 False]
        (activate (start [\<lparr>handle = 0, selected = True\<rparr>]))) = [1] \<and>
   repositories (run [LoadSettled Fulfils, UiChanged 0, UiSelected 0 False]
        (activate (start [\<lparr>handle = 0, selected = True\<rparr>]))) = [\<lparr>handle = 0, selected = False\<rparr>] \<and>
   prManager (step (TimerFired 1)
     (run [LoadSettled Fulfils, UiChanged 0, UiSelected 0 False]
        (activate (start [\<lparr>handle = 0, selected = True\<rparr>])))) = Some 0 \<and>
   reviewManager (step (TimerFired 1)
     (run [LoadSettled Fulfils, UiChanged 0, UiSelected 0 False]
        (activate (start [\<lparr>handle = 0, selected = True\<rparr>])))) = Some 0 \<and>
   timers (step (TimerFired 1)
     (run [LoadSettled Fulfils, UiChanged 0, UiSelected 0 False]
        (activate (start [\<lparr>handle = 0, selected = True\<rparr>])))) = []"
  using C6_nothing_selected_no_update [of 1
      "run [LoadSettled Fulfils, UiChanged 0, UiSelected 0 False]
         (activate (start [\<lparr>handle = 0, selected = True\<rparr>]))"]
  by (simp add: model_defs)





lemma watched_step: "init_phase s \<noteq> Loading \<Longrightarrow> watched (step e s) = watched s"
  by (cases e) (auto simp: model_defs Let_def split: model_splits)

lemma watched_run: "one_init s \<Longrightarrow> init_phase s = Ready \<Longrightarrow> watched (run es s) = watched s"
proof (induction es arbitrary: s)
  case Nil
  then show ?case by simp
next
  case (Cons e es)
  have "init_phase (step e s) = Ready"
    using ready_run [of s "[e]"] Cons.prems by simp
  with Cons.IH [of "step e s"] Cons.prems show ?case
    by (simp add: one_init_step watched_step del: step.simps)
qed






text \<open>
  C10. Let \<open>init\<close> wait for the configuration in a state s0, let the load fulfil, and let
  any events follow. The repositories with a selection-changed listener are then, and
  stay, those of the collection of s0. A selection change of a repository h that was not
  in that collection, such as one opened later, changes nothing at all: it schedules no
  timer and so moves no manager. The callback of a timer that does fire still reads the
  whole collection of that moment, later repositories included.
\<close>

theorem C10_listeners_fixed_at_init:
  assumes "s0 = run es (activate (start rs))"
      and "init_phase s0 = Loading"
      and "h \<notin> handle ` set (repositories s0)"
      and "s = run es' (step (LoadSettled Fulfils) s0)"
  shows "watched s = map handle (repositories s0) \<and>
         step (UiChanged h) s = s \<and>
         (\<forall>t q. t \<in> set (timers s) \<and> firstSelectedRepository (repositories s) = Some q \<longrightarrow>
            prManager (step (TimerFired t) s) = Some (handle q) \<and>
            reviewManager (step (TimerFired t) s) = Some (handle q))"
proof -
  let ?found = "firstSelectedRepository rs"
  define s1 where "s1 = step (LoadSettled Fulfils) s0"
  have inv0: "invariant ?found s0"
    unfolding assms(1) by (rule invariant_reachable)
  then have rep: "repository s0 \<noteq> None"
    using assms(2) by (auto simp: invariant_def one_init_def)
  have inv1: "invariant ?found s1"
    unfolding s1_def using inv0 by (rule invariant_step)
  from rep assms(2) have w1: "watched s1 = map handle (repositories s0)"
    and r1: "init_phase s1 = Ready"
    by (auto simp: s1_def init_resume_def settle_init_def)
  have s: "s = run es' s1"
    by (simp add: assms(4) s1_def)
  from inv1 have "one_init s1" by (simp add: invariant_def)
  then have "watched s = watched s1"
    unfolding s using r1 by (rule watched_run)
  with w1 have w: "watched s = map handle (repositories s0)" by simp
  with assms(3) have "h \<notin> set (watched s)" by simp
  then have noop: "step (UiChanged h) s = s" by simp
  have inv: "invariant ?found s"
    unfolding s using inv1 by (rule invariant_run)
  then have "prManager s \<noteq> None \<and> reviewManager s \<noteq> None" if "t \<in> set (timers s)" for t
    using that by (auto simp: invariant_def wired_def split: if_splits)
  then have
    "\<forall>t q. t \<in> set (timers s) \<and> firstSelectedRepository (repositories s) = Some q \<longrightarrow>
       prManager (step (TimerFired t) s) = Some (handle q) \<and>
       reviewManager (step (TimerFired t) s) = Some (handle q)"
    by (auto simp: update_repository_def clearTimeout_def)
  with w noop show ?thesis by blast
qed

theorem C10_listeners_fixed_at_init_witness:
  "init_phase (activate (start [\<lparr>handle = 0, selected = True\<rparr>])) = Loading \<and>
   repositories (activate (start [\<lparr>handle = 0, selected = True\<rparr>])) =
     [\<lparr>handle = 0, selected = True\<rparr>] \<and>
   watched
     (run [RepositoryOpened \<lparr>handle = 5, selected = True\<rparr>, UiSelected 0 False, UiChanged 5]
        (step (LoadSettled Fulfils) (activate (start [\<lparr>handle = 0, selected = True\<rparr>])))) = [0] \<and>
   timers
     (run [RepositoryOpened \<lparr>handle = 5, selected = True\<rparr>, UiSelected 0 False, UiChanged 5]
        (step (LoadSettled Fulfils) (activate (start [\<lparr>handle = 0, selected = True\<rparr>])))) = [] \<and>
   prManager
     (run [RepositoryOpened \<lparr>handle = 5, selected = True\<rparr>, UiSelected 0 False, UiChanged 5]
        (step (LoadSettled Fulfils) (activate (start [\<lparr>handle = 0, selected = True\<rparr>])))) = Some 0 \<and>
   prManager
     (run [RepositoryOpened \<lparr>handle = 5, selected = True\<rparr>, UiSelected 0 False, UiChanged 5,
           UiChanged 0, TimerFired 1]
        (step (LoadSettled Fulfils) (activate (start [\<lparr>handle = 0, selected = True\<rparr>])))) = Some 5"
  using C10_listeners_fixed_at_init [OF refl _ _ refl,
      of "[]" "[\<lparr>handle = 0, selected = True\<rparr>]" 5
         "[RepositoryOpened \<lparr>handle = 5, selected = True\<rparr>, UiSelected 0 False, UiChanged 5]"]
  by (simp add: model_defs)

subsection \<open>Shutdown\<close>

lemma telemetry_step: "telemetry (step e s) = telemetry s"
  by (cases e) (auto simp: model_defs Let_def split: model_splits)

lemma telemetry_run: "telemetry (run es s) = telemetry s"
  by (induction es arbitrary: s) (simp_all add: telemetry_step)

lemma telemetry_activate: "telemetry (activate s)"
  by (simp add: model_defs Let_def split: list.splits)

text \<open>
  C9. When the telemetry variable is set, \<open>deactivate\<close> calls \<open>shutdown\<close> once and its
  promise stays pending until the promise of \<open>shutdown\<close> settles, and settles as that
  one does. When the variable is not set, \<open>deactivate\<close> resolves with no call of
  \<open>shutdown\<close> and no other change. The variable is set in every state after \<open>activate\<close>
  and is not set before.
\<close>

theorem C9_deactivate_awaits_shutdown:
  "(telemetry s \<longrightarrow>
      shutdown_calls (deactivate c s) = Suc (shutdown_calls s) \<and>
      deactivation (deactivate Returns s) = Some Pending \<and>
      deactivation (shutdown_settled st (deactivate Returns s)) =
        Some (case st of Fulfils \<Rightarrow> Resolved | Rejects e \<Rightarrow> Rejected e)) \<and>
   (\<not> telemetry s \<longrightarrow> deactivate c s = s\<lparr> deactivation := Some Resolved \<rparr>) \<and>
   telemetry (run es (activate (start rs))) \<and>
   \<not> telemetry (start rs)"
  by (simp add: telemetry_run telemetry_activate)
    (simp add: deactivate_def shutdown_settled_def start_def Let_def split: call.splits)

theorem C9_deactivate_awaits_shutdown_witness:
  "telemetry (activate (start [])) \<and>
   shutdown_calls (deactivate Returns (activate (start []))) = 1 \<and>
   deactivation (deactivate Returns (activate (start []))) = Some Pending \<and>
   deactivation (shutdown_settled Fulfils (deactivate Returns (activate (start [])))) = Some Resolved \<and>
   \<not> telemetry (start []) \<and>
   shutdown_calls (deactivate Returns (start [])) = 0 \<and>
   deactivation (deactivate Returns (start [])) = Some Resolved"
  using
    C9_deactivate_awaits_shutdown [of "activate (start [])" Returns Fulfils "[]" "[]"]
    C9_deactivate_awaits_shutdown [of "start []" Returns Fulfils "[]" "[]"]
  by (simp add: model_defs)

end
